theory Spec2Isabelle
  imports Main "HOL-Library.Sublist"
begin

section \<open>Biathlon data utilities: time codec and URL builders\<close>

text \<open>
  The repository has two Python modules. \<^verbatim>\<open>tools.py\<close> converts between a race time
  written as \<^verbatim>\<open>(hours:minutes:)seconds.tenth\<close> and a count of tenths of a second
  (\<^verbatim>\<open>time_conversion\<close>, \<^verbatim>\<open>time_conversion2\<close>); \<^verbatim>\<open>biathlon_api.py\<close> builds four URLs
  by string concatenation and fetches JSON over HTTP (\<^verbatim>\<open>get_json\<close>). The \<^verbatim>\<open>requests\<close>
  library is not part of the repository: what its calls return or raise is a parameter of
  the model of \<^verbatim>\<open>get_json\<close>, whose own logic is the order of its two handlers.

  A Python \<^verbatim>\<open>str\<close> is modelled as a \<^typ>\<open>string\<close>, one \<^typ>\<open>char\<close> per code point, which
  covers the code points 0 to 255. A Python \<^verbatim>\<open>int\<close> is an \<^typ>\<open>int\<close>, and \<^verbatim>\<open>int(s)\<close> and
  \<^verbatim>\<open>str(n)\<close> are taken on unbounded integers: the interpreter's configurable limit on the
  number of digits in such a conversion (4300 by default in recent versions) is not
  modelled. A raised exception is the left summand of the result.
\<close>

subsection \<open>Python built-ins used by the code\<close>

text \<open>
  \<^verbatim>\<open>s.split(sep)\<close> for a one-character separator: the string is cut at every occurrence
  of the separator, empty pieces are kept, and the result is never empty
  (\<^verbatim>\<open>"".split(":") == [""]\<close>).
\<close>

fun split_str :: "string \<Rightarrow> char \<Rightarrow> string list" where
  "split_str [] sep = [[]]"
| "split_str (c # cs) sep =
     (if c = sep then [] # split_str cs sep
      else (case split_str cs sep of
              [] \<Rightarrow> [[c]]
            | p # ps \<Rightarrow> (c # p) # ps))"

text \<open>\<^verbatim>\<open>sep.join(parts)\<close>, the inverse of splitting.\<close>

fun join_str :: "char \<Rightarrow> string list \<Rightarrow> string" where
  "join_str sep [] = []"
| "join_str sep [p] = p"
| "join_str sep (p # q # ps) = p @ sep # join_str sep (q # ps)"

text \<open>
  \<^verbatim>\<open>int(s)\<close> on a string, base 10. CPython skips white space on both sides, reads one
  optional sign, then decimal digits in which single underscores may stand between two
  digits, and raises \<^verbatim>\<open>ValueError\<close> on anything else. Among the code points below 256 the
  white space it skips is TAB, LF, VT, FF, CR, SPACE, NEL (0x85) and NBSP (0xA0); the
  only decimal digits there are \<^verbatim>\<open>0\<close> to \<^verbatim>\<open>9\<close>.
\<close>

definition is_space :: "char \<Rightarrow> bool" where
  "is_space c = (c \<in> set [CHR 0x09, CHR 0x0A, CHR 0x0B, CHR 0x0C, CHR 0x0D, CHR 0x20,
                           CHR 0x85, CHR 0xA0])"

definition is_digit :: "char \<Rightarrow> bool" where
  "is_digit c = (c \<in> set ''0123456789'')"

definition digit_val :: "char \<Rightarrow> nat" where
  "digit_val c = of_char c - 48"

definition digit_of :: "nat \<Rightarrow> char" where
  "digit_of d = ''0123456789'' ! d"

text \<open>The digit part of a literal: a digit, then digits each preceded by at most one underscore.\<close>

fun digits_ok :: "string \<Rightarrow> bool" where
  "digits_ok [] = False"
| "digits_ok [c] = is_digit c"
| "digits_ok (c # d # r) =
     (is_digit c \<and> (if d = CHR ''_'' then digits_ok r else digits_ok (d # r)))"

definition dec_value :: "string \<Rightarrow> nat" where
  "dec_value ds = foldl (\<lambda>a c. 10 * a + digit_val c) 0 ds"

definition py_int :: "string \<Rightarrow> int option" where
  "py_int s =
     (let s1 = dropWhile is_space s;
          neg = (s1 \<noteq> [] \<and> hd s1 = CHR ''-'');
          s2 = (if s1 \<noteq> [] \<and> (hd s1 = CHR ''+'' \<or> hd s1 = CHR ''-'') then tl s1 else s1);
          body = takeWhile (\<lambda>c. is_digit c \<or> c = CHR ''_'') s2;
          rest = dropWhile (\<lambda>c. is_digit c \<or> c = CHR ''_'') s2
      in if digits_ok body \<and> dropWhile is_space rest = []
         then Some ((if neg then - 1 else 1) * int (dec_value (filter is_digit body)))
         else None)"

text \<open>\<^verbatim>\<open>str(n)\<close> and the f-string fields \<^verbatim>\<open>{n}\<close> and \<^verbatim>\<open>{n:02d}\<close> for an integer.\<close>

fun str_of_nat :: "nat \<Rightarrow> string" where
  "str_of_nat n = (if n < 10 then [digit_of n] else str_of_nat (n div 10) @ [digit_of (n mod 10)])"

declare str_of_nat.simps [simp del]

definition py_str :: "int \<Rightarrow> string" where
  "py_str i = (if i < 0 then CHR ''-'' # str_of_nat (nat (- i)) else str_of_nat (nat i))"

text \<open>
  \<^verbatim>\<open>{n:02d}\<close>: the sign, if any, comes first and counts towards the width of 2; zeros
  fill the space between the sign and the digits.
\<close>

definition py_fmt_02d :: "int \<Rightarrow> string" where
  "py_fmt_02d i =
     (let sgn = (if i < 0 then ''-'' else []);
          ds = str_of_nat (nat \<bar>i\<bar>)
      in sgn @ replicate (2 - length sgn - length ds) CHR ''0'' @ ds)"

subsection \<open>tools.py\<close>

datatype error = ValueError string

definition int_e :: "string \<Rightarrow> error + int" where
  "int_e s = (case py_int s of
                None \<Rightarrow> Inl (ValueError ''invalid literal for int() with base 10'')
              | Some i \<Rightarrow> Inr i)"

text \<open>
  The body of the \<^verbatim>\<open>try\<close> block of \<^verbatim>\<open>time_conversion\<close>, in the order of the source: the
  segment count decides which of hours and minutes are read, then the last segment is
  split at the dot (unpacking into two names raises \<^verbatim>\<open>ValueError\<close> unless there are exactly
  two pieces), then the three range checks. The texts of the two errors raised by the
  interpreter itself are abbreviated; the handler discards them.
\<close>

definition time_conversion_try :: "string \<Rightarrow> error + int" where
  "time_conversion_try time_str =
     (case (case split_str time_str CHR '':'' of
              [hours_str, minutes_str, seconds_tenth_str] \<Rightarrow>
                (case int_e hours_str of
                   Inl e \<Rightarrow> Inl e
                 | Inr hours \<Rightarrow>
                     (case int_e minutes_str of
                        Inl e \<Rightarrow> Inl e
                      | Inr minutes \<Rightarrow> Inr (hours, minutes, seconds_tenth_str)))
            | [minutes_str, seconds_tenth_str] \<Rightarrow>
                (case int_e minutes_str of
                   Inl e \<Rightarrow> Inl e
                 | Inr minutes \<Rightarrow> Inr (0, minutes, seconds_tenth_str))
            | [seconds_tenth_str] \<Rightarrow> Inr (0, 0, seconds_tenth_str)
            | _ \<Rightarrow> Inl (ValueError ''Invalid time format.'')) of
        Inl e \<Rightarrow> Inl e
      | Inr (hours, minutes, seconds_tenth_str) \<Rightarrow>
          (case split_str seconds_tenth_str CHR ''.'' of
             [seconds_str, tenth_str] \<Rightarrow>
               (case int_e seconds_str of
                  Inl e \<Rightarrow> Inl e
                | Inr seconds \<Rightarrow>
                    (case int_e tenth_str of
                       Inl e \<Rightarrow> Inl e
                     | Inr tenth \<Rightarrow>
                         if seconds < 0 \<or> seconds \<ge> 60 \<or> tenth < 0 \<or> tenth \<ge> 10 then
                           Inl (ValueError
                             ''Invalid time format: seconds must be between 0 and 59, and tenths between 0 and 9.'')
                         else if minutes < 0 \<or> minutes \<ge> 60 then
                           Inl (ValueError
                             ''Invalid time format: minutes must be between 0 and 59.'')
                         else if hours < 0 then
                           Inl (ValueError ''Invalid time format: hours cannot be negative.'')
                         else Inr (hours * 36000 + minutes * 600 + seconds * 10 + tenth)))
           | _ \<Rightarrow> Inl (ValueError ''wrong number of values to unpack (expected 2)'')))"

text \<open>The message of the one error that leaves \<^verbatim>\<open>time_conversion\<close>.\<close>

definition invalid_format_msg :: string where
  "invalid_format_msg =
     ''Invalid time format. Use the format '' @ [CHR 0x27] @ ''(hours:minutes:)seconds.tenth''
       @ [CHR 0x27] @ '' with numeric values.''"

text \<open>\<^verbatim>\<open>except ValueError: raise ValueError(...)\<close>: every error of the body is replaced.\<close>

definition time_conversion :: "string \<Rightarrow> error + int" where
  "time_conversion time_str =
     (case time_conversion_try time_str of
        Inl (ValueError _) \<Rightarrow> Inl (ValueError invalid_format_msg)
      | Inr total_time_in_tenth \<Rightarrow> Inr total_time_in_tenth)"

text \<open>
  \<^verbatim>\<open>time_conversion2\<close>: \<^verbatim>\<open>//\<close> and \<^verbatim>\<open>%\<close> round towards minus infinity, as \<open>div\<close> and
  \<open>mod\<close> on \<^typ>\<open>int\<close> do; \<^verbatim>\<open>int(...)\<close> of an integer is that integer.
\<close>

definition time_conversion2 :: "int \<Rightarrow> string" where
  "time_conversion2 total_time_in_tenth =
     (let minutes = total_time_in_tenth div 600;
          seconds = (total_time_in_tenth mod 600) div 10;
          tenth = total_time_in_tenth mod 10
      in if minutes > 0 then py_str minutes @ '':'' @ py_fmt_02d seconds @ ''.'' @ py_str tenth
         else py_str seconds @ ''.'' @ py_str tenth)"

subsection \<open>biathlon\_api.py: the URL builders\<close>

definition get_url_analytics :: "string \<Rightarrow> string \<Rightarrow> string" where
  "get_url_analytics Race_Id Type_Id =
     ''https://www.biathlonresults.com/modules/sportapi/api/AnalyticResults?RaceId='' @ Race_Id
       @ ''&TypeId='' @ Type_Id"

definition get_url_results :: "string \<Rightarrow> string" where
  "get_url_results Race_Id =
     ''https://www.biathlonresults.com/modules/sportapi/api/Results?RT=385698&RaceId='' @ Race_Id"

definition get_url_calendar :: "string \<Rightarrow> string" where
  "get_url_calendar season =
     ''https://www.biathlonresults.com/modules/sportapi/api/Events?RT=385698&SeasonId='' @ season
       @ ''&Level=-1''"

definition get_url_event :: "string \<Rightarrow> string" where
  "get_url_event Event_Id =
     ''https://www.biathlonresults.com/modules/sportapi/api/Competitions?RT=385698&EventId=''
       @ Event_Id"

subsection \<open>biathlon\_api.py: the fetch\<close>

text \<open>
  An exception object, as far as the handlers of \<^verbatim>\<open>get_json\<close> can tell: whether it is an
  instance of \<^verbatim>\<open>requests.exceptions.RequestException\<close>, whether it is an instance of
  \<^verbatim>\<open>ValueError\<close>, and its text \<^verbatim>\<open>str(e)\<close>. One object can be an instance of both classes.
\<close>

record exn =
  is_request_exception :: bool
  is_value_error :: bool
  exn_str :: string

text \<open>
  The three library calls of the \<^verbatim>\<open>try\<close> block, taken as parameters: \<^verbatim>\<open>requests.get(url)\<close>
  returns a response or raises, \<^verbatim>\<open>answer.raise_for_status()\<close> returns or raises, and
  \<^verbatim>\<open>answer.json()\<close> returns the decoded value or raises. A call that never returns (there
  is no timeout) is not modelled.
\<close>

record ('r, 'j) requests_lib =
  lib_get :: "string \<Rightarrow> exn + 'r"
  lib_raise_for_status :: "'r \<Rightarrow> exn option"
  lib_json :: "'r \<Rightarrow> exn + 'j"

definition get_json_try :: "('r, 'j) requests_lib \<Rightarrow> string \<Rightarrow> exn + 'j" where
  "get_json_try lib url =
     (case lib_get lib url of
        Inl e \<Rightarrow> Inl e
      | Inr answer \<Rightarrow>
          (case lib_raise_for_status lib answer of
             Some e \<Rightarrow> Inl e
           | None \<Rightarrow>
               (case lib_json lib answer of
                  Inl e \<Rightarrow> Inl e
                | Inr text \<Rightarrow> Inr text)))"

text \<open>
  The handlers, in the order of the source: \<^verbatim>\<open>except RequestException as e\<close> comes first and
  raises a new \<^verbatim>\<open>RequestException\<close> (which is not a \<^verbatim>\<open>ValueError\<close>) with the text
  \<^verbatim>\<open>Request error: \<close> followed by \<^verbatim>\<open>str(e)\<close>; \<^verbatim>\<open>except ValueError\<close> comes second and raises
  a new \<^verbatim>\<open>ValueError\<close>; any other exception leaves the function as it is.
\<close>

definition get_json :: "('r, 'j) requests_lib \<Rightarrow> string \<Rightarrow> exn + 'j" where
  "get_json lib url =
     (case get_json_try lib url of
        Inl e \<Rightarrow>
          if is_request_exception e then
            Inl \<lparr>is_request_exception = True, is_value_error = False,
                 exn_str = ''Request error: '' @ exn_str e\<rparr>
          else if is_value_error e then
            Inl \<lparr>is_request_exception = False, is_value_error = True,
                 exn_str = ''The response is not valid JSON.''\<rparr>
          else Inl e
      | Inr text \<Rightarrow> Inr text)"

text \<open>
  A concrete behaviour of the library for one request: the server answers with status 200
  and a body that is not JSON. \<^verbatim>\<open>raise_for_status\<close> raises for the statuses 400 to 599 only.
  Since version 2.27 of the library, \<^verbatim>\<open>Response.json\<close> raises its own \<^verbatim>\<open>JSONDecodeError\<close>
  on such a body, a class that inherits from both \<^verbatim>\<open>RequestException\<close> and \<^verbatim>\<open>ValueError\<close>;
  before that version it raised a plain \<^verbatim>\<open>ValueError\<close>. A response is its status and body.
\<close>

definition http_error :: exn where
  "http_error = \<lparr>is_request_exception = True, is_value_error = False,
                  exn_str = ''HTTP error''\<rparr>"

definition json_decode_error :: "bool \<Rightarrow> exn" where
  "json_decode_error also_request_exception =
     \<lparr>is_request_exception = also_request_exception, is_value_error = True,
      exn_str = ''Expecting value: line 1 column 1 (char 0)''\<rparr>"

definition non_json_200 :: "bool \<Rightarrow> (nat \<times> string, string) requests_lib" where
  "non_json_200 also_request_exception =
     \<lparr>lib_get = (\<lambda>url. Inr (200, ''<html>not json</html>'')),
      lib_raise_for_status =
        (\<lambda>(status, body). if 400 \<le> status \<and> status < 600 then Some http_error else None),
      lib_json = (\<lambda>(status, body). Inl (json_decode_error also_request_exception))\<rparr>"

subsection \<open>Notions of the specification\<close>

text \<open>The base path and the extra query constant that the specification names.\<close>

definition api_base :: string where
  "api_base = ''https://www.biathlonresults.com/modules/sportapi/api/''"

definition rt_constant :: string where
  "rt_constant = ''RT=385698''"

text \<open>
  The ranges of the data model: hours non-negative, minutes and seconds 0..59, tenths 0..9.
\<close>

definition in_ranges :: "int \<Rightarrow> int \<Rightarrow> int \<Rightarrow> int \<Rightarrow> bool" where
  "in_ranges h m s t = (0 \<le> h \<and> 0 \<le> m \<and> m < 60 \<and> 0 \<le> s \<and> s < 60 \<and> 0 \<le> t \<and> t < 10)"

text \<open>
  The specification's list of what makes a time string invalid, item by item: a segment
  count other than 1, 2 or 3; a final segment that does not split at the dot into exactly
  two parts; a segment that is not an integer; seconds outside 0..59; tenths outside 0..9;
  minutes, when present, outside 0..59; hours, when present, negative. A segment "is an
  integer" when \<^verbatim>\<open>int\<close> reads it.
\<close>

definition reads_outside :: "string \<Rightarrow> int \<Rightarrow> int \<Rightarrow> bool" where
  "reads_outside seg lo hi = (case py_int seg of None \<Rightarrow> False | Some v \<Rightarrow> v < lo \<or> hi < v)"

definition reads_negative :: "string \<Rightarrow> bool" where
  "reads_negative seg = (case py_int seg of None \<Rightarrow> False | Some v \<Rightarrow> v < 0)"

definition spec_invalid :: "string \<Rightarrow> bool" where
  "spec_invalid x =
     (let parts = split_str x CHR '':'';
          n = length parts;
          final = split_str (last parts) CHR ''.''
      in (n \<noteq> 1 \<and> n \<noteq> 2 \<and> n \<noteq> 3)
         \<or> length final \<noteq> 2
         \<or> list_ex (\<lambda>seg. py_int seg = None) (butlast parts @ final)
         \<or> reads_outside (final ! 0) 0 59
         \<or> reads_outside (final ! 1) 0 9
         \<or> (2 \<le> n \<and> reads_outside (parts ! (n - 2)) 0 59)
         \<or> (n = 3 \<and> reads_negative (parts ! 0)))"

text \<open>
  The characters the specification allows in a time string (ASCII digits, colon, dot), and
  the larger set that the code tolerates because \<^verbatim>\<open>int\<close> does: signs, the underscore and
  white space.
\<close>

definition spec_time_char :: "char \<Rightarrow> bool" where
  "spec_time_char c = (is_digit c \<or> c = CHR '':'' \<or> c = CHR ''.'')"

definition tolerated_char :: "char \<Rightarrow> bool" where
  "tolerated_char c =
     (spec_time_char c \<or> c = CHR ''+'' \<or> c = CHR ''-'' \<or> c = CHR ''_'' \<or> is_space c)"

text \<open>
  The specification's canonical strings: accepted, with the minimal number of segments,
  that is without a leading segment that reads as zero.
\<close>

definition spec_canonical :: "string \<Rightarrow> bool" where
  "spec_canonical x =
     ((case time_conversion x of Inl _ \<Rightarrow> False | Inr _ \<Rightarrow> True)
      \<and> (case split_str x CHR '':'' of
            [hours_str, minutes_str, seconds_tenth_str] \<Rightarrow> py_int hours_str \<noteq> Some 0
          | [minutes_str, seconds_tenth_str] \<Rightarrow> py_int minutes_str \<noteq> Some 0
          | _ \<Rightarrow> True))"

text \<open>
  The strings in the form that \<^const>\<open>time_conversion2\<close> writes for a time below one hour:
  \<^verbatim>\<open>S.T\<close> or \<^verbatim>\<open>M:SS.T\<close>, digits only, the first number without a leading zero, minutes
  from 1 to 59, seconds below 60.
\<close>

definition plain_number :: "string \<Rightarrow> bool" where
  "plain_number ds = (ds \<noteq> [] \<and> list_all is_digit ds \<and> (length ds = 1 \<or> hd ds \<noteq> CHR ''0''))"

definition formatted_form :: "string \<Rightarrow> bool" where
  "formatted_form x =
     (case split_str x CHR '':'' of
        [st] \<Rightarrow>
          (case split_str st CHR ''.'' of
             [ss, ts] \<Rightarrow>
               plain_number ss \<and> dec_value ss < 60 \<and> length ts = 1 \<and> list_all is_digit ts
           | _ \<Rightarrow> False)
      | [ms, st] \<Rightarrow>
          plain_number ms \<and> 1 \<le> dec_value ms \<and> dec_value ms < 60 \<and>
          (case split_str st CHR ''.'' of
             [ss, ts] \<Rightarrow>
               length ss = 2 \<and> list_all is_digit ss \<and> dec_value ss < 60 \<and>
               length ts = 1 \<and> list_all is_digit ts
           | _ \<Rightarrow> False)
      | _ \<Rightarrow> False)"

section \<open>Properties\<close>

subsection \<open>Splitting\<close>

lemma split_str_not_Nil: "split_str s sep \<noteq> []"
  by (induction s) (auto split: list.splits)

lemma split_str_no_sep: "sep \<notin> set s \<Longrightarrow> split_str s sep = [s]"
  by (induction s) auto

lemma split_str_first: "sep \<notin> set a \<Longrightarrow> split_str (a @ sep # b) sep = a # split_str b sep"
  by (induction a) auto

lemma split_str_chars: "c \<in> set s \<Longrightarrow> c \<noteq> sep \<Longrightarrow> \<exists>p \<in> set (split_str s sep). c \<in> set p"
  by (induction s) (auto split: list.splits)

lemma join_split: "join_str sep (split_str x sep) = x"
proof (induction x)
  case Nil
  show ?case by simp
next
  case (Cons c cs)
  show ?case
  proof (cases "split_str cs sep")
    case Nil
    then show ?thesis using split_str_not_Nil [of cs sep] by simp
  next
    case (Cons p ps)
    with Cons.IH show ?thesis
      by (cases ps) auto
  qed
qed

lemma split_one: "split_str x sep = [a] \<Longrightarrow> x = a"
  using join_split [of sep x] by simp

lemma split_two: "split_str x sep = [a, b] \<Longrightarrow> x = a @ sep # b"
  using join_split [of sep x] by simp

subsection \<open>Decimal digits and integer literals\<close>

lemma below_ten: "(d::nat) < 10 \<Longrightarrow> d \<in> {0, 1, 2, 3, 4, 5, 6, 7, 8, 9}"
  by auto

lemma digit_of_is_digit: "d < 10 \<Longrightarrow> is_digit (digit_of d)"
  by (drule below_ten) (auto simp: is_digit_def digit_of_def)

lemma digit_val_digit_of: "d < 10 \<Longrightarrow> digit_val (digit_of d) = d"
  by (drule below_ten) (auto simp: digit_val_def digit_of_def)

lemma digit_val_less: "is_digit c \<Longrightarrow> digit_val c < 10"
  by (auto simp: is_digit_def digit_val_def)

lemma digit_of_digit_val: "is_digit c \<Longrightarrow> digit_of (digit_val c) = c"
  by (auto simp: is_digit_def digit_val_def digit_of_def)

lemma is_digit_plain:
  "is_digit c \<Longrightarrow> \<not> is_space c \<and> c \<noteq> CHR ''+'' \<and> c \<noteq> CHR ''-'' \<and> c \<noteq> CHR ''_''
     \<and> c \<noteq> CHR '':'' \<and> c \<noteq> CHR ''.''"
  by (auto simp: is_digit_def is_space_def)

lemma digits_ok_all_digits: "ds \<noteq> [] \<Longrightarrow> list_all is_digit ds \<Longrightarrow> digits_ok ds"
  by (induction ds rule: digits_ok.induct) (auto dest: is_digit_plain)

lemma py_int_digits:
  assumes "ds \<noteq> []" and "list_all is_digit ds"
  shows "py_int ds = Some (int (dec_value ds))"
proof -
  from assms obtain c cs where ds: "ds = c # cs" by (cases ds) auto
  with assms have c: "is_digit c" by simp
  have all: "\<forall>x \<in> set ds. is_digit x \<or> x = CHR ''_''"
    using assms(2) by (auto simp: list_all_iff)
  have tw: "takeWhile (\<lambda>c. is_digit c \<or> c = CHR ''_'') ds = ds"
    using all by simp
  have dw: "dropWhile (\<lambda>c. is_digit c \<or> c = CHR ''_'') ds = []"
    using all by simp
  have fl: "filter is_digit ds = ds"
    using assms(2) by (simp add: list_all_iff)
  have sp: "dropWhile is_space ds = ds"
    using c is_digit_plain [OF c] by (simp add: ds)
  have hd: "hd ds \<noteq> CHR ''+''" "hd ds \<noteq> CHR ''-''"
    using is_digit_plain [OF c] by (simp_all add: ds)
  show ?thesis
    using digits_ok_all_digits [OF assms] by (simp add: py_int_def sp hd tw dw fl)
qed

lemma dec_value_snoc: "dec_value (ds @ [c]) = 10 * dec_value ds + digit_val c"
  by (simp add: dec_value_def)

lemma str_of_nat_digits: "list_all is_digit (str_of_nat n)"
  by (induction n rule: str_of_nat.induct)
     (subst str_of_nat.simps, auto simp: digit_of_is_digit)

lemma str_of_nat_not_Nil: "str_of_nat n \<noteq> []"
  by (subst str_of_nat.simps) simp

lemma dec_value_str_of_nat: "dec_value (str_of_nat n) = n"
proof (induction n rule: str_of_nat.induct)
  case (1 n)
  show ?case
  proof (cases "n < 10")
    case True
    then show ?thesis
      by (subst str_of_nat.simps) (simp add: dec_value_def digit_val_digit_of)
  next
    case False
    with "1" have "dec_value (str_of_nat (n div 10)) = n div 10" by simp
    with False show ?thesis
      by (subst str_of_nat.simps) (simp add: dec_value_snoc digit_val_digit_of)
  qed
qed

lemma py_int_str_of_nat: "py_int (str_of_nat n) = Some (int n)"
  by (simp add: py_int_digits str_of_nat_digits str_of_nat_not_Nil dec_value_str_of_nat)

lemma py_int_py_str: "0 \<le> i \<Longrightarrow> py_int (py_str i) = Some i"
  by (simp add: py_str_def py_int_str_of_nat)

lemma str_of_nat_one_digit: "n < 10 \<Longrightarrow> str_of_nat n = [digit_of n]"
  by (subst str_of_nat.simps) simp

lemma str_of_nat_two_digits:
  "10 \<le> n \<Longrightarrow> n < 100 \<Longrightarrow> str_of_nat n = [digit_of (n div 10), digit_of (n mod 10)]"
  by (subst str_of_nat.simps) (simp add: str_of_nat_one_digit)

lemma py_fmt_02d_two_digits:
  assumes "0 \<le> i" and "i < 100"
  shows "py_fmt_02d i = [digit_of (nat i div 10), digit_of (nat i mod 10)]"
proof (cases "i < 10")
  case True
  with assms have "str_of_nat (nat i) = [digit_of (nat i)]"
    by (simp add: str_of_nat_one_digit)
  with True assms show ?thesis
    by (simp add: py_fmt_02d_def digit_of_def)
next
  case False
  with assms have "str_of_nat (nat i) = [digit_of (nat i div 10), digit_of (nat i mod 10)]"
    by (simp add: str_of_nat_two_digits)
  with assms show ?thesis
    by (simp add: py_fmt_02d_def)
qed

subsection \<open>What \<^const>\<open>time_conversion\<close> accepts\<close>

lemma int_e_Inr: "int_e s = Inr i \<longleftrightarrow> py_int s = Some i"
  by (simp add: int_e_def split: option.splits)

lemma int_e_Inl: "(\<exists>e. int_e s = Inl e) \<longleftrightarrow> py_int s = None"
  by (simp add: int_e_def split: option.splits)

lemma time_conversion_error: "time_conversion x = Inl e \<Longrightarrow> e = ValueError invalid_format_msg"
  by (auto simp: time_conversion_def split: sum.splits error.splits)

lemma time_conversion_Inr: "time_conversion x = Inr v \<longleftrightarrow> time_conversion_try x = Inr v"
  by (auto simp: time_conversion_def split: sum.splits error.splits)

lemma try_tail:
  "(case split_str st CHR ''.'' of
             [seconds_str, tenth_str] \<Rightarrow>
               (case int_e seconds_str of
                  Inl e \<Rightarrow> Inl e
                | Inr seconds \<Rightarrow>
                    (case int_e tenth_str of
                       Inl e \<Rightarrow> Inl e
                     | Inr tenth \<Rightarrow>
                         if seconds < 0 \<or> seconds \<ge> 60 \<or> tenth < 0 \<or> tenth \<ge> 10 then
                           Inl (ValueError m1)
                         else if minutes < 0 \<or> minutes \<ge> 60 then
                           Inl (ValueError m2)
                         else if hours < 0 then
                           Inl (ValueError m3)
                         else Inr (hours * 36000 + minutes * 600 + seconds * 10 + tenth)))
           | _ \<Rightarrow> Inl (ValueError m4)) = Inr v
   \<longleftrightarrow> (\<exists>ss ts s t. split_str st CHR ''.'' = [ss, ts] \<and> py_int ss = Some s \<and> py_int ts = Some t
          \<and> in_ranges hours minutes s t \<and> v = hours * 36000 + minutes * 600 + s * 10 + t)"
  by (auto simp: int_e_def in_ranges_def split: list.splits sum.splits option.splits if_splits)

lemma accepted_iff:
  "time_conversion x = Inr v \<longleftrightarrow>
     (\<exists>h m st ss ts s t.
        (split_str x CHR '':'' = [st] \<and> h = 0 \<and> m = 0
         \<or> (\<exists>ms. split_str x CHR '':'' = [ms, st] \<and> h = 0 \<and> py_int ms = Some m)
         \<or> (\<exists>hs ms. split_str x CHR '':'' = [hs, ms, st] \<and> py_int hs = Some h \<and> py_int ms = Some m))
        \<and> split_str st CHR ''.'' = [ss, ts] \<and> py_int ss = Some s \<and> py_int ts = Some t
        \<and> in_ranges h m s t \<and> v = h * 36000 + m * 600 + s * 10 + t)"
  unfolding time_conversion_Inr time_conversion_try_def
  by (auto simp: try_tail int_e_def split: list.splits sum.splits option.splits)

lemma spec_invalid_iff: "spec_invalid x \<longleftrightarrow> (\<forall>v. time_conversion x \<noteq> Inr v)"
proof -
  have ne: "split_str x CHR '':'' \<noteq> []" by (rule split_str_not_Nil)
  consider (one) st where "split_str x CHR '':'' = [st]"
    | (two) ms st where "split_str x CHR '':'' = [ms, st]"
    | (three) hs ms st where "split_str x CHR '':'' = [hs, ms, st]"
    | (many) a b c d r where "split_str x CHR '':'' = a # b # c # d # r"
    using ne by (auto simp: neq_Nil_conv split: list.splits) (metis list.exhaust)
  then show ?thesis
  proof cases
    case one
    then show ?thesis
      by (auto simp: spec_invalid_def time_conversion_Inr time_conversion_try_def int_e_def
            reads_outside_def reads_negative_def split: list.splits option.splits)
  next
    case two
    then show ?thesis
      by (auto simp: spec_invalid_def time_conversion_Inr time_conversion_try_def int_e_def
            reads_outside_def reads_negative_def split: list.splits option.splits)
  next
    case three
    then show ?thesis
      by (auto simp: spec_invalid_def time_conversion_Inr time_conversion_try_def int_e_def
            reads_outside_def reads_negative_def split: list.splits option.splits)
  next
    case many
    then show ?thesis
      by (auto simp: spec_invalid_def time_conversion_Inr time_conversion_try_def)
  qed
qed

text \<open>
  C1. \<^const>\<open>time_conversion\<close> returns \<open>v\<close> exactly when the string splits at the colons into
  one, two or three segments, the last segment splits at the dot into two, every segment
  reads as an integer, hours \<open>h\<close>, minutes \<open>m\<close>, seconds \<open>s\<close> and tenths \<open>t\<close> are in range
  (absent hours and minutes count as 0), and \<open>v = h * 36000 + m * 600 + s * 10 + t\<close>; the
  value is then non-negative. In particular \<^verbatim>\<open>1:02:33.4\<close>, \<^verbatim>\<open>2:05.1\<close> and \<^verbatim>\<open>59.9\<close> read as
  37534, 1251 and 599.
\<close>

theorem time_conversion_value:
  "(time_conversion x = Inr v \<longleftrightarrow>
     (\<exists>h m st ss ts s t.
        (split_str x CHR '':'' = [st] \<and> h = 0 \<and> m = 0
         \<or> (\<exists>ms. split_str x CHR '':'' = [ms, st] \<and> h = 0 \<and> py_int ms = Some m)
         \<or> (\<exists>hs ms. split_str x CHR '':'' = [hs, ms, st] \<and> py_int hs = Some h \<and> py_int ms = Some m))
        \<and> split_str st CHR ''.'' = [ss, ts] \<and> py_int ss = Some s \<and> py_int ts = Some t
        \<and> in_ranges h m s t \<and> v = h * 36000 + m * 600 + s * 10 + t))
   \<and> (time_conversion x = Inr v \<longrightarrow> 0 \<le> v)
   \<and> time_conversion ''1:02:33.4'' = Inr 37534
   \<and> time_conversion ''2:05.1'' = Inr 1251
   \<and> time_conversion ''59.9'' = Inr 599"
proof -
  have nonneg: "0 \<le> v" if "time_conversion x = Inr v"
  proof -
    from that obtain h m s t where "in_ranges h m s t" "v = h * 36000 + m * 600 + s * 10 + t"
      unfolding accepted_iff by blast
    then show ?thesis by (simp add: in_ranges_def)
  qed
  have e1: "time_conversion ''1:02:33.4'' = Inr 37534" by code_simp
  have e2: "time_conversion ''2:05.1'' = Inr 1251" by code_simp
  have e3: "time_conversion ''59.9'' = Inr 599" by code_simp
  from accepted_iff [of x v] nonneg e1 e2 e3 show ?thesis by blast
qed

theorem time_conversion_value_witness:
  "time_conversion ''1:02:33.4'' = Inr 37534 \<and> (0::int) \<le> 37534
   \<and> (\<exists>h m s t. in_ranges h m s t \<and> (37534::int) = h * 36000 + m * 600 + s * 10 + t)"
proof -
  have a: "time_conversion ''1:02:33.4'' = Inr 37534" by code_simp
  from time_conversion_value [of "''1:02:33.4''" 37534] a show ?thesis by blast
qed

text \<open>
  C2. \<^const>\<open>time_conversion\<close> fails exactly when the string is invalid in the sense of the
  specification's list (segment count other than 1, 2 or 3; last segment not in two parts
  at the dot; a segment that is not an integer; seconds, tenths or minutes out of range;
  negative hours), and every failure is the same invalid-format error. In particular it
  fails for \<^verbatim>\<open>60.0\<close>, \<^verbatim>\<open>1:60:00.0\<close>, \<^verbatim>\<open>abc.0\<close>, \<^verbatim>\<open>1.23\<close> and the empty string.
\<close>

theorem time_conversion_fails_iff_invalid:
  "((\<exists>e. time_conversion x = Inl e) \<longleftrightarrow> spec_invalid x)
   \<and> (\<forall>e. time_conversion x = Inl e \<longrightarrow> e = ValueError invalid_format_msg)
   \<and> time_conversion ''60.0'' = Inl (ValueError invalid_format_msg)
   \<and> time_conversion ''1:60:00.0'' = Inl (ValueError invalid_format_msg)
   \<and> time_conversion ''abc.0'' = Inl (ValueError invalid_format_msg)
   \<and> time_conversion ''1.23'' = Inl (ValueError invalid_format_msg)
   \<and> time_conversion [] = Inl (ValueError invalid_format_msg)"
proof -
  have "(\<exists>e. time_conversion x = Inl e) \<longleftrightarrow> (\<forall>v. time_conversion x \<noteq> Inr v)"
    by (cases "time_conversion x") simp_all
  then have a: "(\<exists>e. time_conversion x = Inl e) \<longleftrightarrow> spec_invalid x"
    by (simp add: spec_invalid_iff)
  have b: "\<forall>e. time_conversion x = Inl e \<longrightarrow> e = ValueError invalid_format_msg"
    by (blast dest: time_conversion_error)
  have e1: "time_conversion ''60.0'' = Inl (ValueError invalid_format_msg)" by code_simp
  have e2: "time_conversion ''1:60:00.0'' = Inl (ValueError invalid_format_msg)" by code_simp
  have e3: "time_conversion ''abc.0'' = Inl (ValueError invalid_format_msg)" by code_simp
  have e4: "time_conversion ''1.23'' = Inl (ValueError invalid_format_msg)" by code_simp
  have e5: "time_conversion [] = Inl (ValueError invalid_format_msg)" by code_simp
  from a b e1 e2 e3 e4 e5 show ?thesis by blast
qed

theorem time_conversion_fails_iff_invalid_witness:
  "spec_invalid ''1:2:3:4.5'' \<and> time_conversion ''1:2:3:4.5'' = Inl (ValueError invalid_format_msg)"
proof -
  have h: "spec_invalid ''1:2:3:4.5''" by code_simp
  from time_conversion_fails_iff_invalid [of "''1:2:3:4.5''"] h show ?thesis by blast
qed

subsection \<open>The characters of an accepted string\<close>

lemma if_SomeD: "(if c then Some a else None) = Some v \<Longrightarrow> c"
  by (cases c) simp_all

lemma set_takeWhile_dropWhile:
  "c \<in> set s \<Longrightarrow> c \<in> set (takeWhile P s) \<or> c \<in> set (dropWhile P s)"
proof -
  assume "c \<in> set s"
  then have "c \<in> set (takeWhile P s @ dropWhile P s)" by simp
  then show ?thesis unfolding set_append by blast
qed

lemma py_int_chars:
  assumes "py_int s = Some v" and "c \<in> set s"
  shows "is_space c \<or> c = CHR ''+'' \<or> c = CHR ''-'' \<or> is_digit c \<or> c = CHR ''_''"
proof -
  let ?P = "\<lambda>c. is_digit c \<or> c = CHR ''_''"
  let ?s1 = "dropWhile is_space s"
  let ?s2 = "if ?s1 \<noteq> [] \<and> (hd ?s1 = CHR ''+'' \<or> hd ?s1 = CHR ''-'') then tl ?s1 else ?s1"
  from assms(1) [unfolded py_int_def Let_def]
  have "digits_ok (takeWhile ?P ?s2) \<and> dropWhile is_space (dropWhile ?P ?s2) = []"
    by (rule if_SomeD)
  then have rest: "dropWhile is_space (dropWhile ?P ?s2) = []" ..
  have tail: "?P c \<or> is_space c" if "c \<in> set ?s2"
  proof -
    from that have "c \<in> set (takeWhile ?P ?s2) \<or> c \<in> set (dropWhile ?P ?s2)"
      by (rule set_takeWhile_dropWhile)
    then show ?thesis
    proof
      assume "c \<in> set (takeWhile ?P ?s2)"
      then have "?P c" by (rule set_takeWhileD [THEN conjunct2])
      then show ?thesis ..
    next
      assume "c \<in> set (dropWhile ?P ?s2)"
      with rest have "is_space c" unfolding dropWhile_eq_Nil_conv by blast
      then show ?thesis ..
    qed
  qed
  have sign: "c = CHR ''+'' \<or> c = CHR ''-'' \<or> c \<in> set ?s2" if "c \<in> set ?s1"
  proof (cases ?s1)
    case Nil
    with that show ?thesis by simp
  next
    case (Cons a as)
    with that show ?thesis by (cases "a = CHR ''+'' \<or> a = CHR ''-''") auto
  qed
  from assms(2) have "c \<in> set (takeWhile is_space s) \<or> c \<in> set ?s1"
    by (rule set_takeWhile_dropWhile)
  then show ?thesis
  proof
    assume "c \<in> set (takeWhile is_space s)"
    then have "is_space c" by (rule set_takeWhileD [THEN conjunct2])
    then show ?thesis ..
  next
    assume "c \<in> set ?s1"
    from sign [OF this] tail show ?thesis by blast
  qed
qed

lemma py_int_tolerated:
  assumes "py_int s = Some v" and "c \<in> set s"
  shows "tolerated_char c"
  using py_int_chars [OF assms] unfolding tolerated_char_def spec_time_char_def by blast

lemma accepted_tolerated:
  assumes "time_conversion x = Inr v" and "c \<in> set x"
  shows "tolerated_char c"
proof (cases "c = CHR '':'' \<or> c = CHR ''.''")
  case True
  then show ?thesis unfolding tolerated_char_def spec_time_char_def by blast
next
  case False
  then have c1: "c \<noteq> CHR '':''" and c2: "c \<noteq> CHR ''.''" by simp_all
  from assms(1) obtain h m st ss ts s t where
    parts: "split_str x CHR '':'' = [st] \<and> h = 0 \<and> m = 0
         \<or> (\<exists>ms. split_str x CHR '':'' = [ms, st] \<and> h = 0 \<and> py_int ms = Some m)
         \<or> (\<exists>hs ms. split_str x CHR '':'' = [hs, ms, st] \<and> py_int hs = Some h \<and> py_int ms = Some m)"
    and final: "split_str st CHR ''.'' = [ss, ts]" and ss: "py_int ss = Some s"
    and ts: "py_int ts = Some t"
    unfolding accepted_iff by blast
  from split_str_chars [OF assms(2) c1]
  obtain p where p: "p \<in> set (split_str x CHR '':'')" "c \<in> set p" by blast
  have last: "tolerated_char c" if "c \<in> set st"
  proof -
    from split_str_chars [OF that c2] final
    have "c \<in> set ss \<or> c \<in> set ts" by simp
    then show ?thesis
      using py_int_tolerated [OF ss] py_int_tolerated [OF ts] by blast
  qed
  from parts consider (one) "split_str x CHR '':'' = [st]"
    | (two) ms where "split_str x CHR '':'' = [ms, st]" "py_int ms = Some m"
    | (three) hs ms where "split_str x CHR '':'' = [hs, ms, st]" "py_int hs = Some h"
        "py_int ms = Some m"
    by blast
  then show ?thesis
  proof cases
    case one
    with p have "c \<in> set st" by simp
    then show ?thesis by (rule last)
  next
    case two
    with p have "c \<in> set ms \<or> c \<in> set st" by auto
    then show ?thesis using py_int_tolerated [OF two(2)] last by blast
  next
    case three
    with p have "c \<in> set hs \<or> c \<in> set ms \<or> c \<in> set st" by auto
    then show ?thesis
      using py_int_tolerated [OF three(2)] py_int_tolerated [OF three(3)] last by blast
  qed
qed

text \<open>
  C9, as stated, fails: a leading space and a plus sign are neither ASCII digits nor
  separators, yet \<^const>\<open>time_conversion\<close> accepts both strings, because \<^verbatim>\<open>int\<close> does.
\<close>

theorem other_characters_accepted_counterexample:
  "CHR '' '' \<in> set '' 5.3'' \<and> \<not> spec_time_char CHR '' '' \<and> time_conversion '' 5.3'' = Inr 53
   \<and> CHR ''+'' \<in> set ''+5.3'' \<and> \<not> spec_time_char CHR ''+'' \<and> time_conversion ''+5.3'' = Inr 53"
  by code_simp

text \<open>
  C9, amended. A string with a character other than an ASCII digit, the colon, the dot, a
  sign, the underscore or the white space that \<^verbatim>\<open>int\<close> skips is rejected with the
  invalid-format error.
\<close>

theorem untolerated_character_rejected:
  assumes "c \<in> set x" and "\<not> tolerated_char c"
  shows "time_conversion x = Inl (ValueError invalid_format_msg)"
proof (cases "time_conversion x")
  case (Inl e)
  then show ?thesis by (simp add: time_conversion_error)
next
  case (Inr v)
  from accepted_tolerated [OF Inr assms(1)] assms(2) show ?thesis by blast
qed

theorem untolerated_character_rejected_witness:
  "CHR ''a'' \<in> set ''5a.3'' \<and> \<not> tolerated_char CHR ''a''
   \<and> time_conversion ''5a.3'' = Inl (ValueError invalid_format_msg)"
proof -
  have a: "CHR ''a'' \<in> set ''5a.3''" by simp
  have b: "\<not> tolerated_char CHR ''a''" by code_simp
  from untolerated_character_rejected [OF a b] a b show ?thesis by simp
qed

subsection \<open>Writing a time and reading it back\<close>

lemma time_conversion_one:
  assumes "split_str x CHR '':'' = [st]" and "split_str st CHR ''.'' = [ss, ts]"
    and "py_int ss = Some s" and "py_int ts = Some t"
  shows "time_conversion x =
    (if in_ranges 0 0 s t then Inr (s * 10 + t) else Inl (ValueError invalid_format_msg))"
  using assms
  by (simp add: time_conversion_def time_conversion_try_def int_e_def in_ranges_def)

lemma time_conversion_two:
  assumes "split_str x CHR '':'' = [ms, st]" and "split_str st CHR ''.'' = [ss, ts]"
    and "py_int ms = Some m" and "py_int ss = Some s" and "py_int ts = Some t"
  shows "time_conversion x =
    (if in_ranges 0 m s t then Inr (m * 600 + s * 10 + t) else Inl (ValueError invalid_format_msg))"
  using assms
  by (simp add: time_conversion_def time_conversion_try_def int_e_def in_ranges_def)

lemma digits_no_separator:
  "list_all is_digit ds \<Longrightarrow> CHR '':'' \<notin> set ds \<and> CHR ''.'' \<notin> set ds"
  by (auto simp: list_all_iff dest: is_digit_plain)

lemma py_str_digits: "0 \<le> i \<Longrightarrow> list_all is_digit (py_str i)"
  by (simp add: py_str_def str_of_nat_digits)

lemma py_fmt_02d_digits: "0 \<le> i \<Longrightarrow> i < 100 \<Longrightarrow> list_all is_digit (py_fmt_02d i)"
  by (simp add: py_fmt_02d_two_digits digit_of_is_digit)

lemma py_int_py_fmt_02d:
  assumes "0 \<le> i" and "i < 100"
  shows "py_int (py_fmt_02d i) = Some i"
proof -
  have v: "dec_value (py_fmt_02d i) = nat i"
    using assms by (simp add: py_fmt_02d_two_digits dec_value_def digit_val_digit_of)
  have ne: "py_fmt_02d i \<noteq> []"
    using assms by (simp add: py_fmt_02d_two_digits)
  have "py_int (py_fmt_02d i) = Some (int (dec_value (py_fmt_02d i)))"
    using ne py_fmt_02d_digits [OF assms] by (rule py_int_digits)
  with v assms show ?thesis by simp
qed

lemma split_dot_fields:
  assumes "list_all is_digit a" and "list_all is_digit b"
  shows "split_str (a @ ''.'' @ b) CHR ''.'' = [a, b]"
  using assms by (simp add: split_str_first split_str_no_sep digits_no_separator)

lemma split_colon_fields:
  assumes "list_all is_digit a" and "list_all is_digit b" and "list_all is_digit c"
  shows "split_str (a @ '':'' @ b @ ''.'' @ c) CHR '':'' = [a, b @ ''.'' @ c]"
  using assms by (simp add: split_str_first split_str_no_sep digits_no_separator)

lemma split_colon_none:
  assumes "list_all is_digit b" and "list_all is_digit c"
  shows "split_str (b @ ''.'' @ c) CHR '':'' = [b @ ''.'' @ c]"
  using assms by (simp add: split_str_no_sep digits_no_separator)

lemma fields_in_range:
  fixes n :: int
  shows "0 \<le> (n mod 600) div 10" "(n mod 600) div 10 < 60" "0 \<le> n mod 10" "n mod 10 < 10"
  by simp_all

lemma div600_less: "(n div 600 < 60) = (n < 36000)" for n :: int
proof -
  have "n = 600 * (n div 600) + n mod 600" by simp
  moreover have "0 \<le> n mod 600" "n mod 600 < 600" by simp_all
  ultimately show ?thesis by linarith
qed
lemma div600_zero: "n div 600 \<le> 0 \<Longrightarrow> n < 36000" for n :: int
  using div600_less [of n] by linarith
lemma fields_sum: "n div 600 * 600 + (n mod 600) div 10 * 10 + n mod 10 = n" for n :: int
proof -
  have "(n mod 600) mod 10 = n mod 10"
    by (rule mod_mod_cancel) simp
  then have "(n mod 600) div 10 * 10 + n mod 10 = n mod 600"
    using div_mult_mod_eq [of "n mod 600" 10] by simp
  then show ?thesis
    using div_mult_mod_eq [of n 600] by linarith
qed

lemma round_trip:
  assumes "0 \<le> n"
  shows "time_conversion (time_conversion2 n) =
    (if n < 36000 then Inr n else Inl (ValueError invalid_format_msg))"
proof -
  define m where "m = n div 600"
  define s where "s = (n mod 600) div 10"
  define t where "t = n mod 10"
  have m0: "0 \<le> m" using assms by (simp add: m_def)
  have s_range: "0 \<le> s" "s < 60" "s < 100" by (simp_all add: s_def)
  have t_range: "0 \<le> t" "t < 10" by (simp_all add: t_def)
  have sum: "m * 600 + s * 10 + t = n"
    unfolding m_def s_def t_def by (rule fields_sum)
  have dm: "list_all is_digit (py_str m)" using m0 by (rule py_str_digits)
  have ds: "list_all is_digit (py_str s)" using s_range(1) by (rule py_str_digits)
  have df: "list_all is_digit (py_fmt_02d s)" using s_range(1,3) by (rule py_fmt_02d_digits)
  have dt: "list_all is_digit (py_str t)" using t_range(1) by (rule py_str_digits)
  show ?thesis
  proof (cases "0 < m")
    case True
    have out: "time_conversion2 n = py_str m @ '':'' @ py_fmt_02d s @ ''.'' @ py_str t"
      using True by (simp add: time_conversion2_def m_def s_def t_def)
    have "time_conversion (time_conversion2 n) =
        (if in_ranges 0 m s t then Inr (m * 600 + s * 10 + t)
         else Inl (ValueError invalid_format_msg))"
      unfolding out
      by (rule time_conversion_two [OF split_colon_fields [OF dm df dt] split_dot_fields [OF df dt]
            py_int_py_str [OF m0] py_int_py_fmt_02d [OF s_range(1,3)] py_int_py_str [OF t_range(1)]])
    moreover have "in_ranges 0 m s t \<longleftrightarrow> n < 36000"
      using m0 s_range t_range div600_less [of n] by (simp add: in_ranges_def m_def)
    ultimately show ?thesis by (simp add: sum)
  next
    case False
    with m0 have mz: "m = 0" by simp
    have out: "time_conversion2 n = py_str s @ ''.'' @ py_str t"
      using False by (simp add: time_conversion2_def m_def s_def t_def)
    have "time_conversion (time_conversion2 n) =
        (if in_ranges 0 0 s t then Inr (s * 10 + t) else Inl (ValueError invalid_format_msg))"
      unfolding out
      by (rule time_conversion_one [OF split_colon_none [OF ds dt] split_dot_fields [OF ds dt]
            py_int_py_str [OF s_range(1)] py_int_py_str [OF t_range(1)]])
    moreover have "in_ranges 0 0 s t" using s_range t_range by (simp add: in_ranges_def)
    moreover have "n < 36000" using mz div600_zero [of n] by (simp add: m_def)
    ultimately show ?thesis using sum mz by simp
  qed
qed

subsection \<open>The output of \<^const>\<open>time_conversion2\<close>\<close>

lemma hd_str_of_nat: "0 < n \<Longrightarrow> hd (str_of_nat n) \<noteq> CHR ''0''"
proof (induction n rule: str_of_nat.induct)
  case (1 n)
  show ?case
  proof (cases "n < 10")
    case True
    with "1.prems" have "n \<in> {1, 2, 3, 4, 5, 6, 7, 8, 9}" by auto
    then have "digit_of n \<noteq> CHR ''0''" by (auto simp: digit_of_def)
    with True show ?thesis by (subst str_of_nat.simps) simp
  next
    case False
    then have "0 < n div 10" by simp
    with False "1.IH" have "hd (str_of_nat (n div 10)) \<noteq> CHR ''0''" by simp
    with False show ?thesis
      by (subst str_of_nat.simps) (simp add: str_of_nat_not_Nil)
  qed
qed

lemma plain_number_str_of_nat: "plain_number (str_of_nat n)"
proof (cases "n = 0")
  case True
  then show ?thesis
    by (simp add: plain_number_def str_of_nat_one_digit digit_of_is_digit)
next
  case False
  then show ?thesis
    by (simp add: plain_number_def str_of_nat_not_Nil str_of_nat_digits hd_str_of_nat)
qed

lemma plain_number_py_str:
  "0 \<le> i \<Longrightarrow> plain_number (py_str i) \<and> int (dec_value (py_str i)) = i"
  by (simp add: py_str_def plain_number_str_of_nat dec_value_str_of_nat)

lemma time_conversion2_minutes:
  "0 < n div 600 \<Longrightarrow> time_conversion2 n =
     py_str (n div 600) @ '':'' @ py_fmt_02d ((n mod 600) div 10) @ ''.'' @ py_str (n mod 10)"
  by (simp add: time_conversion2_def)

lemma time_conversion2_seconds:
  "\<not> 0 < n div 600 \<Longrightarrow> time_conversion2 n =
     py_str ((n mod 600) div 10) @ ''.'' @ py_str (n mod 10)"
  by (simp add: time_conversion2_def)

lemma py_str_tenth: "0 \<le> t \<Longrightarrow> t < 10 \<Longrightarrow> py_str t = [digit_of (nat t)]"
  by (simp add: py_str_def str_of_nat_one_digit)

text \<open>
  C3. For every non-negative \<open>n\<close>, with minutes \<open>n div 600\<close>, seconds \<open>(n mod 600) div 10\<close> and
  tenths \<open>n mod 10\<close>, \<^const>\<open>time_conversion2\<close> returns the decimal numeral of the minutes, a
  colon, the seconds as exactly two digits, a dot and the tenths digit when the minutes are
  positive, and otherwise the decimal numeral of the seconds (no padding), a dot and the
  tenths digit. It is a total function: there is no failing case. In particular 599 gives
  \<^verbatim>\<open>59.9\<close> and 0 gives \<^verbatim>\<open>0.0\<close>.
\<close>

theorem time_conversion2_output:
  assumes "0 \<le> n"
  shows "(\<exists>ms ss.
            plain_number ms \<and> int (dec_value ms) = n div 600
          \<and> plain_number ss \<and> int (dec_value ss) = (n mod 600) div 10
          \<and> time_conversion2 n =
              (if 0 < n div 600
               then ms @ '':'' @ [digit_of (nat ((n mod 600) div 10) div 10),
                                 digit_of (nat ((n mod 600) div 10) mod 10)]
                       @ ''.'' @ [digit_of (nat (n mod 10))]
               else ss @ ''.'' @ [digit_of (nat (n mod 10))]))
         \<and> time_conversion2 599 = ''59.9'' \<and> time_conversion2 0 = ''0.0''"
proof -
  let ?m = "n div 600" and ?s = "(n mod 600) div 10" and ?t = "n mod 10"
  have m0: "0 \<le> ?m" using assms by simp
  have s_range: "0 \<le> ?s" "?s < 100" by simp_all
  have t_range: "0 \<le> ?t" "?t < 10" by simp_all
  have out: "time_conversion2 n =
              (if 0 < ?m
               then py_str ?m @ '':'' @ [digit_of (nat ?s div 10), digit_of (nat ?s mod 10)]
                       @ ''.'' @ [digit_of (nat ?t)]
               else py_str ?s @ ''.'' @ [digit_of (nat ?t)])"
    using py_fmt_02d_two_digits [OF s_range] py_str_tenth [OF t_range]
    by (simp add: time_conversion2_minutes time_conversion2_seconds)
  have ex: "\<exists>ms ss.
            plain_number ms \<and> int (dec_value ms) = ?m
          \<and> plain_number ss \<and> int (dec_value ss) = ?s
          \<and> time_conversion2 n =
              (if 0 < ?m
               then ms @ '':'' @ [digit_of (nat ?s div 10), digit_of (nat ?s mod 10)]
                       @ ''.'' @ [digit_of (nat ?t)]
               else ss @ ''.'' @ [digit_of (nat ?t)])"
    using plain_number_py_str [OF m0] plain_number_py_str [OF s_range(1)] out by blast
  have e1: "time_conversion2 599 = ''59.9''" by code_simp
  have e2: "time_conversion2 0 = ''0.0''" by code_simp
  from ex e1 e2 show ?thesis by blast
qed

theorem time_conversion2_output_witness:
  "(0::int) \<le> 1251 \<and> time_conversion2 1251 = ''2:05.1''
   \<and> (\<exists>ms ss. plain_number ms \<and> int (dec_value ms) = 2
          \<and> plain_number ss \<and> int (dec_value ss) = 5
          \<and> time_conversion2 1251 = ms @ '':'' @ [digit_of 0, digit_of 5] @ ''.'' @ [digit_of 1])"
proof -
  have h: "(0::int) \<le> 1251" by simp
  have v: "time_conversion2 1251 = ''2:05.1''" by code_simp
  from time_conversion2_output [OF h] h v show ?thesis by simp
qed

text \<open>
  C10. For every non-negative \<open>n\<close> strictly below 36000 (one hour), reading back what
  \<^const>\<open>time_conversion2\<close> wrote succeeds and gives \<open>n\<close>.
\<close>

theorem round_trip_below_one_hour:
  "0 \<le> n \<Longrightarrow> n < 36000 \<Longrightarrow> time_conversion (time_conversion2 n) = Inr n"
  by (simp add: round_trip)

theorem round_trip_below_one_hour_witness:
  "(0::int) \<le> 35999 \<and> (35999::int) < 36000 \<and> time_conversion2 35999 = ''59:59.9''
   \<and> time_conversion (time_conversion2 35999) = Inr 35999"
proof -
  have v: "time_conversion2 35999 = ''59:59.9''" by code_simp
  from round_trip_below_one_hour [of 35999] v show ?thesis by simp
qed

text \<open>
  C4, as stated for every non-negative \<open>n\<close>, fails at one hour: 36000 is written as
  \<^verbatim>\<open>60:00.0\<close>, whose minutes field \<^const>\<open>time_conversion\<close> rejects.
\<close>

theorem round_trip_one_hour_counterexample:
  "(0::int) \<le> 36000 \<and> time_conversion2 36000 = ''60:00.0''
   \<and> time_conversion (time_conversion2 36000) = Inl (ValueError invalid_format_msg)
   \<and> time_conversion (time_conversion2 36000) \<noteq> Inr 36000"
  by code_simp

text \<open>
  C4, amended. For every non-negative \<open>n\<close>, reading back what \<^const>\<open>time_conversion2\<close> wrote
  gives \<open>n\<close> exactly when \<open>n\<close> is below 36000; from 36000 on it fails with the invalid-format
  error.
\<close>

theorem round_trip_exactly_below_one_hour:
  assumes "0 \<le> n"
  shows "(time_conversion (time_conversion2 n) = Inr n \<longleftrightarrow> n < 36000)
       \<and> (36000 \<le> n \<longrightarrow>
            time_conversion (time_conversion2 n) = Inl (ValueError invalid_format_msg))"
  using round_trip [OF assms] by simp

theorem round_trip_exactly_below_one_hour_witness:
  "(0::int) \<le> 37534 \<and> (36000::int) \<le> 37534
   \<and> time_conversion (time_conversion2 37534) \<noteq> Inr 37534
   \<and> time_conversion (time_conversion2 37534) = Inl (ValueError invalid_format_msg)"
  using round_trip_exactly_below_one_hour [of 37534] by simp

lemma split_colon_output:
  "split_str (time_conversion2 n) CHR '':'' =
     (if 0 < n div 600
      then [py_str (n div 600), py_fmt_02d ((n mod 600) div 10) @ ''.'' @ py_str (n mod 10)]
      else [py_str ((n mod 600) div 10) @ ''.'' @ py_str (n mod 10)])"
proof -
  have s_range: "0 \<le> (n mod 600) div 10" "(n mod 600) div 10 < 100" by simp_all
  have ds: "list_all is_digit (py_str ((n mod 600) div 10))"
    using s_range(1) by (rule py_str_digits)
  have df: "list_all is_digit (py_fmt_02d ((n mod 600) div 10))"
    using s_range by (rule py_fmt_02d_digits)
  have dt: "list_all is_digit (py_str (n mod 10))"
    by (rule py_str_digits) simp
  show ?thesis
  proof (cases "0 < n div 600")
    case True
    then have "list_all is_digit (py_str (n div 600))"
      by (simp add: py_str_digits)
    from split_colon_fields [OF this df dt] True show ?thesis
      by (simp add: time_conversion2_minutes)
  next
    case False
    with split_colon_none [OF ds dt] show ?thesis
      by (simp add: time_conversion2_seconds)
  qed
qed

text \<open>
  C6. \<^const>\<open>time_conversion2\<close> never writes an hours segment: its output has at most two
  colon-separated segments for every input, and from 36000 tenths (one hour) on the first
  segment is the minutes \<open>n div 600\<close>, a number above 59. In particular 37534 is written
  \<^verbatim>\<open>62:33.4\<close> although \<^verbatim>\<open>1:02:33.4\<close> reads as 37534.
\<close>

theorem time_conversion2_no_hours:
  "(36000 \<le> n \<longrightarrow>
      (\<exists>rest. split_str (time_conversion2 n) CHR '':'' = [py_str (n div 600), rest])
      \<and> py_int (py_str (n div 600)) = Some (n div 600) \<and> 59 < n div 600)
   \<and> length (split_str (time_conversion2 n) CHR '':'') \<le> 2
   \<and> time_conversion2 37534 = ''62:33.4''
   \<and> time_conversion ''1:02:33.4'' = Inr 37534"
proof -
  have big: "(\<exists>rest. split_str (time_conversion2 n) CHR '':'' = [py_str (n div 600), rest])
      \<and> py_int (py_str (n div 600)) = Some (n div 600) \<and> 59 < n div 600" if "36000 \<le> n"
  proof -
    from that div600_less [of n] have m: "59 < n div 600" by linarith
    then have "0 < n div 600" "0 \<le> n div 600" by simp_all
    with m show ?thesis
      by (simp add: split_colon_output py_int_py_str)
  qed
  have len: "length (split_str (time_conversion2 n) CHR '':'') \<le> 2"
    by (simp add: split_colon_output)
  have e1: "time_conversion2 37534 = ''62:33.4''" by code_simp
  have e2: "time_conversion ''1:02:33.4'' = Inr 37534" by code_simp
  from big len e1 e2 show ?thesis by blast
qed

theorem time_conversion2_no_hours_witness:
  "(36000::int) \<le> 36000 \<and> split_str (time_conversion2 36000) CHR '':'' = [''60'', ''00.0'']
   \<and> py_str (36000 div 600) = ''60'' \<and> py_int ''60'' = Some 60"
proof -
  have s: "split_str (time_conversion2 36000) CHR '':'' = [''60'', ''00.0'']" by code_simp
  have p: "py_str (36000 div 600) = ''60''" by code_simp
  from time_conversion2_no_hours [of 36000] s p show ?thesis by simp
qed

subsection \<open>Reading a time and writing it back\<close>

lemma dec_value_pos:
  "list_all is_digit ds \<Longrightarrow> ds \<noteq> [] \<Longrightarrow> hd ds \<noteq> CHR ''0'' \<Longrightarrow> 0 < dec_value ds"
proof (induction ds rule: rev_induct)
  case Nil
  then show ?case by simp
next
  case (snoc c ds)
  show ?case
  proof (cases "ds = []")
    case True
    with snoc.prems have "is_digit c" "c \<noteq> CHR ''0''" by simp_all
    then have "0 < digit_val c" by (auto simp: is_digit_def digit_val_def)
    with True show ?thesis by (simp add: dec_value_def)
  next
    case False
    with snoc have "0 < dec_value ds" by simp
    then show ?thesis by (simp add: dec_value_snoc)
  qed
qed

lemma str_of_nat_dec_value: "plain_number ds \<Longrightarrow> str_of_nat (dec_value ds) = ds"
proof (induction ds rule: rev_induct)
  case Nil
  then show ?case by (simp add: plain_number_def)
next
  case (snoc c ds)
  from snoc.prems have c: "is_digit c" and all: "list_all is_digit ds"
    by (simp_all add: plain_number_def)
  have d: "digit_val c < 10" using c by (rule digit_val_less)
  show ?case
  proof (cases "ds = []")
    case True
    with c d show ?thesis
      by (simp add: dec_value_def str_of_nat_one_digit digit_of_digit_val)
  next
    case False
    with snoc.prems have hd: "hd ds \<noteq> CHR ''0''"
      by (cases ds) (simp_all add: plain_number_def)
    with False all have pn: "plain_number ds" by (simp add: plain_number_def)
    have pos: "0 < dec_value ds" using all False hd by (rule dec_value_pos)
    let ?v = "10 * dec_value ds + digit_val c"
    have big: "\<not> ?v < 10" using pos by simp
    have q: "?v div 10 = dec_value ds" using d by simp
    have r: "?v mod 10 = digit_val c" using d by simp
    have "str_of_nat ?v = str_of_nat (?v div 10) @ [digit_of (?v mod 10)]"
      using big by (subst str_of_nat.simps) simp
    also have "\<dots> = ds @ [c]"
      unfolding q r using snoc.IH [OF pn] c by (simp add: digit_of_digit_val)
    finally show ?thesis by (simp add: dec_value_snoc)
  qed
qed

lemma fields_of_sum:
  fixes m s t :: int
  assumes "0 \<le> s" and "s < 60" and "0 \<le> t" and "t < 10"
  shows "(m * 600 + s * 10 + t) div 600 = m"
    and "((m * 600 + s * 10 + t) mod 600) div 10 = s"
    and "(m * 600 + s * 10 + t) mod 10 = t"
proof -
  define r where "r = s * 10 + t"
  have r: "0 \<le> r" "r < 600" using assms by (simp_all add: r_def)
  have v: "m * 600 + s * 10 + t = r + m * 600" by (simp add: r_def)
  show "(m * 600 + s * 10 + t) div 600 = m"
    unfolding v using r by simp
  have "(r + m * 600) mod 600 = r" using r by simp
  moreover have "r div 10 = s" unfolding r_def using assms by simp
  ultimately show "((m * 600 + s * 10 + t) mod 600) div 10 = s"
    unfolding v by simp
  have "m * 600 + s * 10 + t = t + (m * 60 + s) * 10" by simp
  then show "(m * 600 + s * 10 + t) mod 10 = t"
    using assms by (simp only: mod_mult_self1) simp
qed

lemma single_digit:
  assumes "length ts = 1" and "list_all is_digit ts"
  shows "py_int ts = Some (int (dec_value ts))" and "dec_value ts < 10"
    and "[digit_of (dec_value ts)] = ts"
proof -
  from assms obtain c where ts: "ts = [c]" and c: "is_digit c"
    by (cases ts) auto
  show "py_int ts = Some (int (dec_value ts))"
    using assms by (intro py_int_digits) auto
  show "dec_value ts < 10" using digit_val_less [OF c] by (simp add: ts dec_value_def)
  show "[digit_of (dec_value ts)] = ts"
    using digit_of_digit_val [OF c] by (simp add: ts dec_value_def)
qed

lemma two_digits:
  assumes "length ss = 2" and "list_all is_digit ss"
  shows "py_int ss = Some (int (dec_value ss))"
    and "[digit_of (dec_value ss div 10), digit_of (dec_value ss mod 10)] = ss"
proof -
  from assms obtain a b where ss: "ss = [a, b]" and a: "is_digit a" and b: "is_digit b"
    by (cases ss; cases "tl ss") auto
  show "py_int ss = Some (int (dec_value ss))"
    using assms by (intro py_int_digits) auto
  have v: "dec_value ss = 10 * digit_val a + digit_val b" by (simp add: ss dec_value_def)
  show "[digit_of (dec_value ss div 10), digit_of (dec_value ss mod 10)] = ss"
    unfolding v using digit_val_less [OF b] digit_of_digit_val [OF a] digit_of_digit_val [OF b]
    by (simp add: ss)
qed

lemma plain_number_py_int:
  "plain_number ds \<Longrightarrow> py_int ds = Some (int (dec_value ds))"
  by (simp add: plain_number_def py_int_digits)

lemma formatted_form_fixed:
  assumes "formatted_form x"
  shows "\<exists>v. time_conversion x = Inr v \<and> time_conversion2 v = x"
proof -
  have ne: "split_str x CHR '':'' \<noteq> []" by (rule split_str_not_Nil)
  from assms consider
    (one) st ss ts where "split_str x CHR '':'' = [st]" "split_str st CHR ''.'' = [ss, ts]"
      "plain_number ss" "dec_value ss < 60" "length ts = 1" "list_all is_digit ts"
    | (two) ms st ss ts where "split_str x CHR '':'' = [ms, st]"
      "split_str st CHR ''.'' = [ss, ts]" "plain_number ms" "1 \<le> dec_value ms"
      "dec_value ms < 60" "length ss = 2" "list_all is_digit ss" "dec_value ss < 60"
      "length ts = 1" "list_all is_digit ts"
    unfolding formatted_form_def by (auto split: list.splits)
  then show ?thesis
  proof cases
    case one
    let ?s = "int (dec_value ss)" and ?t = "int (dec_value ts)"
    note t = single_digit [OF one(5,6)]
    have s_range: "0 \<le> ?s" "?s < 60" using one(4) by simp_all
    have t_range: "0 \<le> ?t" "?t < 10" using t(2) by simp_all
    have "time_conversion x =
        (if in_ranges 0 0 ?s ?t then Inr (?s * 10 + ?t) else Inl (ValueError invalid_format_msg))"
      using one(1,2) plain_number_py_int [OF one(3)] t(1) by (rule time_conversion_one)
    then have acc: "time_conversion x = Inr (0 * 600 + ?s * 10 + ?t)"
      using s_range t_range by (simp add: in_ranges_def)
    note f = fields_of_sum [OF s_range t_range, of 0]
    have "time_conversion2 (0 * 600 + ?s * 10 + ?t) = py_str ?s @ ''.'' @ py_str ?t"
      using f by (simp add: time_conversion2_def)
    also have "py_str ?s = ss"
      using str_of_nat_dec_value [OF one(3)] by (simp add: py_str_def)
    also have "py_str ?t = ts"
      using t(2,3) by (simp add: py_str_def str_of_nat_one_digit)
    also have "ss @ ''.'' @ ts = x"
      using split_one [OF one(1)] split_two [OF one(2)] by simp
    finally show ?thesis using acc by blast
  next
    case two
    let ?m = "int (dec_value ms)" and ?s = "int (dec_value ss)" and ?t = "int (dec_value ts)"
    note t = single_digit [OF two(9,10)]
    note s = two_digits [OF two(6,7)]
    have m_range: "0 < ?m" "?m < 60" using two(4,5) by simp_all
    have s_range: "0 \<le> ?s" "?s < 60" using two(8) by simp_all
    have t_range: "0 \<le> ?t" "?t < 10" using t(2) by simp_all
    have "time_conversion x =
        (if in_ranges 0 ?m ?s ?t then Inr (?m * 600 + ?s * 10 + ?t)
         else Inl (ValueError invalid_format_msg))"
      using two(1,2) plain_number_py_int [OF two(3)] s(1) t(1) by (rule time_conversion_two)
    then have acc: "time_conversion x = Inr (?m * 600 + ?s * 10 + ?t)"
      using m_range s_range t_range by (simp add: in_ranges_def)
    note f = fields_of_sum [OF s_range t_range, of ?m]
    have "time_conversion2 (?m * 600 + ?s * 10 + ?t) =
        py_str ?m @ '':'' @ py_fmt_02d ?s @ ''.'' @ py_str ?t"
      by (subst time_conversion2_minutes) (simp_all only: f m_range)
    also have "py_str ?m = ms"
      using str_of_nat_dec_value [OF two(3)] by (simp add: py_str_def)
    also have "py_fmt_02d ?s = ss"
      using s(2) two(8) by (simp add: py_fmt_02d_two_digits)
    also have "py_str ?t = ts"
      using t(2,3) by (simp add: py_str_def str_of_nat_one_digit)
    also have "ms @ '':'' @ ss @ ''.'' @ ts = x"
      using split_two [OF two(1)] split_two [OF two(2)] by simp
    finally show ?thesis using acc by blast
  qed
qed

lemma dec_value_py_fmt_02d:
  "0 \<le> i \<Longrightarrow> i < 100 \<Longrightarrow> dec_value (py_fmt_02d i) = nat i"
  by (simp add: py_fmt_02d_two_digits dec_value_def digit_val_digit_of)

lemma formatted_form_output:
  assumes "0 \<le> n" and "n < 36000"
  shows "formatted_form (time_conversion2 n)"
proof -
  let ?m = "n div 600" and ?s = "(n mod 600) div 10" and ?t = "n mod 10"
  have m_range: "0 \<le> ?m" "?m < 60" using assms div600_less [of n] by simp_all
  have s_range: "0 \<le> ?s" "?s < 100" "?s < 60" by simp_all
  have t_range: "0 \<le> ?t" "?t < 10" by simp_all
  have dt: "list_all is_digit (py_str ?t)" using t_range(1) by (rule py_str_digits)
  have lt: "length (py_str ?t) = 1" using t_range by (simp add: py_str_tenth)
  have df: "list_all is_digit (py_fmt_02d ?s)" using s_range(1,2) by (rule py_fmt_02d_digits)
  have lf: "length (py_fmt_02d ?s) = 2" using s_range(1,2) by (simp add: py_fmt_02d_two_digits)
  have vf: "dec_value (py_fmt_02d ?s) < 60"
    using s_range by (simp add: dec_value_py_fmt_02d)
  note ps = plain_number_py_str [OF s_range(1)]
  have ds: "list_all is_digit (py_str ?s)" using s_range(1) by (rule py_str_digits)
  have vs: "dec_value (py_str ?s) < 60" using ps s_range(3) by linarith
  show ?thesis
  proof (cases "0 < ?m")
    case True
    note pm = plain_number_py_str [OF m_range(1)]
    have vm: "1 \<le> dec_value (py_str ?m)" "dec_value (py_str ?m) < 60"
      using pm True m_range(2) by linarith+
    show ?thesis
      unfolding formatted_form_def split_colon_output
      using True pm vm split_dot_fields [OF df dt] lf df vf lt dt by simp
  next
    case False
    show ?thesis
      unfolding formatted_form_def split_colon_output
      using False ps vs split_dot_fields [OF ds dt] lt dt by simp
  qed
qed

text \<open>
  C5, as stated, fails. \<^verbatim>\<open>1:02:33.4\<close> is accepted and has no leading zero segment, but its
  value 37534 is written back as \<^verbatim>\<open>62:33.4\<close>; \<^verbatim>\<open>05.3\<close> is accepted with the minimal
  single segment, but its value 53 is written back as \<^verbatim>\<open>5.3\<close>.
\<close>

theorem canonical_with_hours_counterexample:
  "spec_canonical ''1:02:33.4'' \<and> time_conversion ''1:02:33.4'' = Inr 37534
   \<and> time_conversion2 37534 = ''62:33.4'' \<and> time_conversion2 37534 \<noteq> ''1:02:33.4''
   \<and> spec_canonical ''05.3'' \<and> time_conversion ''05.3'' = Inr 53
   \<and> time_conversion2 53 = ''5.3'' \<and> time_conversion2 53 \<noteq> ''05.3''"
  by code_simp

text \<open>
  C5, amended. Reading a string and writing the value back gives the string again exactly
  for the strings in the written form: \<^verbatim>\<open>S.T\<close> with seconds 0..59 without leading zero, or
  \<^verbatim>\<open>M:SS.T\<close> with minutes 1..59 without leading zero and two-digit seconds 00..59, with
  one tenths digit, and nothing but digits and the two separators.
\<close>

theorem formatted_form_round_trip:
  "formatted_form x \<longleftrightarrow> (\<exists>v. time_conversion x = Inr v \<and> time_conversion2 v = x)"
proof
  assume "formatted_form x"
  then show "\<exists>v. time_conversion x = Inr v \<and> time_conversion2 v = x"
    by (rule formatted_form_fixed)
next
  assume "\<exists>v. time_conversion x = Inr v \<and> time_conversion2 v = x"
  then obtain v where acc: "time_conversion x = Inr v" and out: "time_conversion2 v = x"
    by blast
  from acc obtain h m s t where "in_ranges h m s t" "v = h * 36000 + m * 600 + s * 10 + t"
    unfolding accepted_iff by blast
  then have v0: "0 \<le> v" by (simp add: in_ranges_def)
  from acc out have "time_conversion (time_conversion2 v) = Inr v" by simp
  with round_trip [OF v0] have "v < 36000" by (simp split: if_splits)
  with v0 have "formatted_form (time_conversion2 v)" by (rule formatted_form_output)
  with out show "formatted_form x" by simp
qed

theorem formatted_form_round_trip_witness:
  "formatted_form ''2:05.1'' \<and> time_conversion ''2:05.1'' = Inr 1251
   \<and> (\<exists>v. time_conversion ''2:05.1'' = Inr v \<and> time_conversion2 v = ''2:05.1'')"
proof -
  have a: "formatted_form ''2:05.1''" by code_simp
  have b: "time_conversion ''2:05.1'' = Inr 1251" by code_simp
  from formatted_form_round_trip [of "''2:05.1''"] a b show ?thesis by blast
qed

subsection \<open>The URL builders\<close>

lemma sublist_between: "ys = ps @ xs @ ss \<Longrightarrow> sublist xs ys"
  by (auto simp: sublist_def)

lemma sublist_append_apart:
  assumes "\<And>w1 w2. w = w1 @ w2 \<Longrightarrow> w1 \<noteq> [] \<Longrightarrow> w2 \<noteq> [] \<Longrightarrow> suffix w1 a \<Longrightarrow> \<not> prefix w2 b"
  shows "sublist w (a @ b) \<longleftrightarrow> sublist w a \<or> sublist w b"
proof
  assume "sublist w (a @ b)"
  then consider "sublist w a" | "sublist w b"
    | w1 w2 where "w = w1 @ w2" "suffix w1 a" "prefix w2 b"
    unfolding sublist_append by blast
  then show "sublist w a \<or> sublist w b"
  proof cases
    case 3
    show ?thesis
    proof (cases "w1 = [] \<or> w2 = []")
      case True
      with 3 show ?thesis by auto
    next
      case False
      with assms [OF 3(1)] 3(2,3) show ?thesis by blast
    qed
  qed simp_all
next
  assume "sublist w a \<or> sublist w b"
  then show "sublist w (a @ b)" unfolding sublist_append by blast
qed

lemma rt_constant_in_analytics:
  "sublist rt_constant (get_url_analytics race_id type_id) \<longleftrightarrow>
     sublist rt_constant race_id \<or> sublist rt_constant type_id"
proof -
  let ?P = "''https://www.biathlonresults.com/modules/sportapi/api/AnalyticResults?RaceId=''"
  let ?Q = "''&TypeId=''"
  have url: "get_url_analytics race_id type_id = ?P @ (race_id @ (?Q @ type_id))"
    by (simp add: get_url_analytics_def)
  have noP: "\<not> sublist rt_constant ?P" by code_simp
  have noQ: "\<not> sublist rt_constant ?Q" by code_simp
  have pre: "list_all (\<lambda>w1. w1 = [] \<or> \<not> suffix w1 ?P) (prefixes rt_constant)" by code_simp
  have amp: "CHR ''&'' \<notin> set rt_constant" by code_simp
  have cap: "CHR ''R'' \<notin> set ?Q" by simp
  have hdw: "hd rt_constant = CHR ''R''" by (simp add: rt_constant_def)
  have 1: "sublist rt_constant (?P @ (race_id @ (?Q @ type_id))) \<longleftrightarrow>
      sublist rt_constant ?P \<or> sublist rt_constant (race_id @ (?Q @ type_id))"
  proof (rule sublist_append_apart)
    fix w1 w2 assume w: "rt_constant = w1 @ w2" and ne: "w1 \<noteq> []" and suf: "suffix w1 ?P"
    from w have "prefix w1 rt_constant" by (rule prefixI)
    then have "w1 \<in> set (prefixes rt_constant)" by simp
    with pre ne have "\<not> suffix w1 ?P" unfolding list_all_iff by blast
    with suf show "\<not> prefix w2 (race_id @ (?Q @ type_id))" by blast
  qed
  have 2: "sublist rt_constant (race_id @ (?Q @ type_id)) \<longleftrightarrow>
      sublist rt_constant race_id \<or> sublist rt_constant (?Q @ type_id)"
  proof (rule sublist_append_apart)
    fix w1 w2 assume w: "rt_constant = w1 @ w2" and ne: "w2 \<noteq> []"
    show "\<not> prefix w2 (?Q @ type_id)"
    proof
      assume "prefix w2 (?Q @ type_id)"
      with ne have "hd w2 = CHR ''&''" by (cases w2) auto
      with ne have "CHR ''&'' \<in> set w2" by (cases w2) auto
      moreover from w have "set rt_constant = set (w1 @ w2)" by (rule arg_cong)
      ultimately show False using amp by simp
    qed
  qed
  have 3: "sublist rt_constant (?Q @ type_id) \<longleftrightarrow>
      sublist rt_constant ?Q \<or> sublist rt_constant type_id"
  proof (rule sublist_append_apart)
    fix w1 w2 assume w: "rt_constant = w1 @ w2" and ne: "w1 \<noteq> []" and suf: "suffix w1 ?Q"
    from w have "hd rt_constant = hd (w1 @ w2)" by (rule arg_cong)
    with ne hdw have "hd w1 = CHR ''R''" by simp
    with ne have "CHR ''R'' \<in> set w1" by (cases w1) auto
    moreover from suf have "set w1 \<subseteq> set ?Q" by (rule set_mono_suffix)
    ultimately have False using cap by blast
    then show "\<not> prefix w2 type_id" ..
  qed
  show ?thesis unfolding url 1 2 3 using noP noQ by blast
qed

text \<open>
  C7. Each of the four URL builders returns exactly its fixed template over the base path,
  with the caller's identifiers inserted as they are and in the documented order of the
  query parameters. The constant \<^verbatim>\<open>RT=385698\<close> is part of the results, calendar and event
  URLs and is absent from the analytics template: an analytics URL contains it only when
  one of the caller's identifiers does.
\<close>

theorem url_builders_templates:
  "get_url_analytics race_id type_id =
     api_base @ ''AnalyticResults?RaceId='' @ race_id @ ''&TypeId='' @ type_id
   \<and> get_url_results race_id = api_base @ ''Results?'' @ rt_constant @ ''&RaceId='' @ race_id
   \<and> get_url_calendar season =
       api_base @ ''Events?'' @ rt_constant @ ''&SeasonId='' @ season @ ''&Level=-1''
   \<and> get_url_event event_id =
       api_base @ ''Competitions?'' @ rt_constant @ ''&EventId='' @ event_id
   \<and> sublist rt_constant (get_url_results race_id)
   \<and> sublist rt_constant (get_url_calendar season)
   \<and> sublist rt_constant (get_url_event event_id)
   \<and> \<not> sublist rt_constant (get_url_analytics [] [])
   \<and> (sublist rt_constant (get_url_analytics race_id type_id) \<longleftrightarrow>
        sublist rt_constant race_id \<or> sublist rt_constant type_id)"
proof -
  have a: "get_url_analytics race_id type_id =
     api_base @ ''AnalyticResults?RaceId='' @ race_id @ ''&TypeId='' @ type_id"
    by (simp add: get_url_analytics_def api_base_def)
  have r: "get_url_results race_id =
     api_base @ ''Results?'' @ rt_constant @ ''&RaceId='' @ race_id"
    by (simp add: get_url_results_def api_base_def rt_constant_def)
  have c: "get_url_calendar season =
     api_base @ ''Events?'' @ rt_constant @ ''&SeasonId='' @ season @ ''&Level=-1''"
    by (simp add: get_url_calendar_def api_base_def rt_constant_def)
  have e: "get_url_event event_id =
     api_base @ ''Competitions?'' @ rt_constant @ ''&EventId='' @ event_id"
    by (simp add: get_url_event_def api_base_def rt_constant_def)
  have sr: "sublist rt_constant (get_url_results race_id)"
    by (rule sublist_between [where ps = "api_base @ ''Results?''"]) (simp add: r)
  have sc: "sublist rt_constant (get_url_calendar season)"
    by (rule sublist_between [where ps = "api_base @ ''Events?''"]) (simp add: c)
  have se: "sublist rt_constant (get_url_event event_id)"
    by (rule sublist_between [where ps = "api_base @ ''Competitions?''"]) (simp add: e)
  have na: "\<not> sublist rt_constant (get_url_analytics [] [])"
    by code_simp
  note ia = rt_constant_in_analytics [of race_id type_id]
  from a r c e sr sc se na ia show ?thesis by blast
qed

theorem url_builders_templates_witness:
  "\<not> sublist rt_constant ''123'' \<and> \<not> sublist rt_constant ''STTM''
   \<and> get_url_analytics ''123'' ''STTM'' =
       ''https://www.biathlonresults.com/modules/sportapi/api/AnalyticResults?RaceId=123&TypeId=STTM''
   \<and> \<not> sublist rt_constant (get_url_analytics ''123'' ''STTM'')"
proof -
  have n1: "\<not> sublist rt_constant ''123''" by code_simp
  have n2: "\<not> sublist rt_constant ''STTM''" by code_simp
  have v: "get_url_analytics ''123'' ''STTM'' =
       ''https://www.biathlonresults.com/modules/sportapi/api/AnalyticResults?RaceId=123&TypeId=STTM''"
    by (simp add: get_url_analytics_def)
  from url_builders_templates [of "''123''" "''STTM''"] n1 n2 v show ?thesis by blast
qed

subsection \<open>The fetch\<close>

lemma get_json_returns:
  "get_json_try lib url = Inr v \<Longrightarrow> get_json lib url = Inr v"
  by (simp add: get_json_def)

lemma get_json_request_exception:
  "get_json_try lib url = Inl e \<Longrightarrow> is_request_exception e \<Longrightarrow>
     get_json lib url = Inl \<lparr>is_request_exception = True, is_value_error = False,
                             exn_str = ''Request error: '' @ exn_str e\<rparr>"
  by (simp add: get_json_def)

lemma get_json_value_error:
  "get_json_try lib url = Inl e \<Longrightarrow> \<not> is_request_exception e \<Longrightarrow> is_value_error e \<Longrightarrow>
     get_json lib url = Inl \<lparr>is_request_exception = False, is_value_error = True,
                             exn_str = ''The response is not valid JSON.''\<rparr>"
  by (simp add: get_json_def)

lemma get_json_try_non_json_200:
  "get_json_try (non_json_200 b) url = Inl (json_decode_error b)"
  by (simp add: get_json_try_def non_json_200_def)

text \<open>
  C8. The claim, like the docstring of \<^verbatim>\<open>get_json\<close>, says that a response body that is not
  valid JSON raises \<^verbatim>\<open>ValueError\<close>. The code does so only when the decoding error is not a
  \<^verbatim>\<open>RequestException\<close>: for a status 200 answer with a non-JSON body whose decoding error
  is an instance of both classes, the first handler catches it and \<^const>\<open>get_json\<close> raises a
  \<^verbatim>\<open>RequestException\<close> that is not a \<^verbatim>\<open>ValueError\<close>; when the decoding error is a
  \<^verbatim>\<open>ValueError\<close> only, the second handler raises the documented \<^verbatim>\<open>ValueError\<close>.
\<close>

theorem get_json_non_json_body_request_exception:
  "get_json (non_json_200 True) (get_url_results ''1'') =
     Inl \<lparr>is_request_exception = True, is_value_error = False,
          exn_str = ''Request error: Expecting value: line 1 column 1 (char 0)''\<rparr>
   \<and> get_json (non_json_200 False) (get_url_results ''1'') =
     Inl \<lparr>is_request_exception = False, is_value_error = True,
          exn_str = ''The response is not valid JSON.''\<rparr>"
proof -
  have t: "is_request_exception (json_decode_error True)" "exn_str (json_decode_error True) =
      ''Expecting value: line 1 column 1 (char 0)''"
    by (simp_all add: json_decode_error_def)
  have f: "\<not> is_request_exception (json_decode_error False)" "is_value_error (json_decode_error False)"
    by (simp_all add: json_decode_error_def)
  from get_json_request_exception [OF get_json_try_non_json_200 t(1)] t(2)
    get_json_value_error [OF get_json_try_non_json_200 f]
  show ?thesis by simp
qed

end
